theory Spec2Isabelle
  imports Main
begin

section \<open>Python strings\<close>

text \<open>
  A Python \<open>str\<close> is a sequence of Unicode code points. The bullet glyphs of the script
  lie outside ASCII, and \<open>len\<close>, slicing and \<open>startswith\<close> count code points, so a
  string is modelled as the list of its code points.
\<close>

type_synonym pystr = "nat list"

definition ascii :: "string \<Rightarrow> pystr" where
  "ascii s = map of_char s"

definition SP :: nat where "SP = 32"
definition COLON :: nat where "COLON = 58"
definition NL :: nat where "NL = 10"

text \<open>The five glyphs of the list \<open>["\<bullet>", "\<circ>", "\<box>", "-", "*"]\<close>: U+2022, U+25E6, U+25AA, "-", "*".\<close>

definition BULLET :: nat where "BULLET = 8226"
definition WHITE_BULLET :: nat where "WHITE_BULLET = 9702"
definition SMALL_SQUARE :: nat where "SMALL_SQUARE = 9642"
definition HYPHEN :: nat where "HYPHEN = 45"
definition STAR :: nat where "STAR = 42"

definition bullet_chars :: "nat list" where
  "bullet_chars = [BULLET, WHITE_BULLET, SMALL_SQUARE, HYPHEN, STAR]"

text \<open>
  \<open>str.strip()\<close>, \<open>lstrip()\<close>, \<open>rstrip()\<close> and \<open>split()\<close> without arguments treat as
  whitespace exactly the code points for which CPython's \<open>str.isspace\<close> holds.
\<close>

definition isspace :: "nat \<Rightarrow> bool" where
  "isspace c \<longleftrightarrow>
     (9 \<le> c \<and> c \<le> 13) \<or> (28 \<le> c \<and> c \<le> 32) \<or> c = 133 \<or> c = 160 \<or> c = 5760 \<or>
     (8192 \<le> c \<and> c \<le> 8202) \<or> c = 8232 \<or> c = 8233 \<or> c = 8239 \<or> c = 8287 \<or> c = 12288"

definition lstrip :: "pystr \<Rightarrow> pystr" where
  "lstrip s = dropWhile isspace s"

definition rstrip :: "pystr \<Rightarrow> pystr" where
  "rstrip s = rev (dropWhile isspace (rev s))"

definition strip :: "pystr \<Rightarrow> pystr" where
  "strip s = lstrip (rstrip s)"

definition startswith :: "pystr \<Rightarrow> pystr \<Rightarrow> bool" where
  "startswith s pre \<longleftrightarrow> take (length pre) s = pre"

definition endswith_colon :: "pystr \<Rightarrow> bool" where
  "endswith_colon s \<longleftrightarrow> s \<noteq> [] \<and> last s = COLON"

text \<open>\<open>sub in s\<close>: \<open>sub\<close> occurs in \<open>s\<close> as a contiguous substring.\<close>

fun py_in :: "pystr \<Rightarrow> pystr \<Rightarrow> bool" where
  "py_in sub [] = (sub = [])"
| "py_in sub (c # cs) = (startswith (c # cs) sub \<or> py_in sub cs)"

text \<open>\<open>s.split()\<close>: the maximal runs of non-whitespace, in order.\<close>

fun split_acc :: "pystr \<Rightarrow> pystr \<Rightarrow> pystr list" where
  "split_acc cur [] = (if cur = [] then [] else [cur])"
| "split_acc cur (c # cs) =
     (if isspace c then (if cur = [] then split_acc [] cs else cur # split_acc [] cs)
      else split_acc (cur @ [c]) cs)"

definition split :: "pystr \<Rightarrow> pystr list" where
  "split s = split_acc [] s"

text \<open>\<open>s.split("\n")\<close>: the pieces between line feeds; always at least one piece.\<close>

fun split_nl_acc :: "pystr \<Rightarrow> pystr \<Rightarrow> pystr list" where
  "split_nl_acc cur [] = [cur]"
| "split_nl_acc cur (c # cs) =
     (if c = NL then cur # split_nl_acc [] cs else split_nl_acc (cur @ [c]) cs)"

definition split_nl :: "pystr \<Rightarrow> pystr list" where
  "split_nl s = split_nl_acc [] s"

text \<open>
  \<open>str.lower()\<close> and \<open>str.isupper()\<close> read the case tables of the Unicode database,
  which are not part of the repository. On text of ASCII code points alone their result
  is fixed: the letters A to Z are the capitals and map to a to z. On any other text the
  result is taken from the tables, a parameter of the model: \<open>unicode_lower\<close> gives the
  lower-case form of a string with a code point above 127, \<open>unicode_isupper\<close> says of
  such a code point whether \<open>isupper\<close> holds of it. What is proved holds for every
  table.
\<close>

record case_tables =
  unicode_lower :: "pystr \<Rightarrow> pystr"
  unicode_isupper :: "nat \<Rightarrow> bool"

definition lower_char :: "nat \<Rightarrow> nat" where
  "lower_char c = (if 65 \<le> c \<and> c \<le> 90 then c + 32 else c)"

definition lower :: "case_tables \<Rightarrow> pystr \<Rightarrow> pystr" where
  "lower ucd s = (if list_all (\<lambda>c. c < 128) s then map lower_char s else unicode_lower ucd s)"

definition isupper :: "case_tables \<Rightarrow> nat \<Rightarrow> bool" where
  "isupper ucd c \<longleftrightarrow> (if c < 128 then 65 \<le> c \<and> c \<le> 90 else unicode_isupper ucd c)"

text \<open>\<open>str(n)\<close> for a non-negative integer: its decimal digits.\<close>

fun str_nat :: "nat \<Rightarrow> pystr" where
  "str_nat n = (if n < 10 then [48 + n] else str_nat (n div 10) @ [48 + n mod 10])"

declare str_nat.simps [simp del]

section \<open>The input tree\<close>

text \<open>
  The paragraph properties element \<open>a:pPr\<close>, as far as the script looks at it: which of
  the bullet children it has. \<open>buChar = None\<close> means no \<open>a:buChar\<close> child,
  \<open>Some None\<close> a child without a \<open>char\<close> attribute, \<open>Some (Some c)\<close> a child whose
  \<open>char\<close> attribute is \<open>c\<close>.
\<close>

record pPr =
  buChar :: "pystr option option"
  buAutoNum :: bool
  buBlip :: bool
  buFont :: bool
  buNone :: bool

text \<open>
  A paragraph object: its identity, its text, its level (0 to 8 in the document format),
  its \<open>pPr\<close> element (\<open>None\<close> when \<open>paragraph._p.pPr\<close> is absent or None) and, for
  each run in order, whether \<open>run._r.rPr\<close> has an attribute \<open>buChar\<close>. Two objects are
  the same object when they have the same identity. The reads of these attributes are
  taken not to raise; an exception there is swallowed by the script and leaves the two
  bullet variables as they were.
\<close>

record para =
  p_id :: nat
  p_text :: pystr
  p_level :: nat
  p_pPr :: "pPr option"
  p_runs :: "bool list"

text \<open>
  A text frame. Every read of \<open>text_frame.paragraphs\<close> builds a list of paragraph
  objects: \<open>paragraphs\<close> is the list the loop of line 40 runs over, \<open>paragraphs_again\<close>
  the list a later read gives (line 101). The library builds new objects at each read,
  so that no object of the second list is one of the first; a tree that keeps its
  paragraphs in a fixed list gives the same objects twice.
\<close>

record TextFrame =
  paragraphs :: "para list"
  paragraphs_again :: "para list"

text \<open>
  \<open>xs.index(x)\<close> on paragraph objects, which define no equality of their own: the
  position of the first element that is the object \<open>x\<close>; \<open>None\<close> stands for the
  ValueError raised when there is none.
\<close>

fun py_index :: "para list \<Rightarrow> para \<Rightarrow> nat option" where
  "py_index [] x = None"
| "py_index (y # ys) x =
     (if p_id y = p_id x then Some 0 else map_option Suc (py_index ys x))"

section \<open>Resolving the bullet of one paragraph\<close>

definition default_bullets :: "pystr list" where
  "default_bullets = [[BULLET, SP], [WHITE_BULLET, SP], [SMALL_SQUARE, SP]]"

text \<open>\<open>default_bullets[level] if level < len(default_bullets) else "- "\<close>\<close>

definition default_bullet :: "nat \<Rightarrow> pystr" where
  "default_bullet level =
     (if level < length default_bullets then default_bullets ! level else [HYPHEN, SP])"

text \<open>
  Method 1 (lines 54-63): the pair \<open>(has_ppt_bullet, original_bullet)\<close> after the look at
  the paragraph properties. The \<open>buNone\<close> branch assigns False to a variable that is
  False already.
\<close>

definition ppr_bullet :: "para \<Rightarrow> bool \<times> pystr" where
  "ppr_bullet p =
     (case p_pPr p of
        None \<Rightarrow> (False, [])
      | Some ppr \<Rightarrow>
          if buChar ppr \<noteq> None \<or> buAutoNum ppr \<or> buBlip ppr \<or> buFont ppr then
            (case buChar ppr of
               Some (Some c) \<Rightarrow> (True, c @ [SP])
             | _ \<Rightarrow> (True, []))
          else if buNone ppr then (False, [])
          else (False, []))"

text \<open>Method 2 (lines 66-71): a run whose properties have \<open>buChar\<close> marks a bullet.\<close>

definition run_bullet :: "para \<Rightarrow> bool \<Rightarrow> bool" where
  "run_bullet p has_ppt_bullet =
     (if \<not> has_ppt_bullet then (\<exists>r \<in> set (p_runs p). r) else has_ppt_bullet)"

text \<open>
  Lines 77-84: the first glyph of \<open>bullet_chars\<close> the text starts with is cut off the
  text; it becomes the bullet only if no bullet was taken from the properties.
\<close>

fun text_bullet :: "nat list \<Rightarrow> pystr \<Rightarrow> pystr \<Rightarrow> pystr \<times> pystr" where
  "text_bullet [] original_bullet txt = (original_bullet, txt)"
| "text_bullet (bullet_char # rest) original_bullet txt =
     (if startswith txt [bullet_char] then
        ((if original_bullet = [] then [bullet_char, SP] else original_bullet),
         strip (drop (length [bullet_char]) txt))
      else text_bullet rest original_bullet txt)"

definition context_keywords :: "pystr list" where
  "context_keywords = map ascii [''align'', ''coordinate'', ''use'', ''incremental'', ''cross'',
     ''iterative'', ''teams'', ''backlogs'', ''decisions'']"

definition slide2_patterns :: "pystr list" where
  "slide2_patterns = map ascii [''align decision'', ''coordinate shared'', ''agile ceremonies'',
     ''incremental'', ''cross-functional'', ''iterative'', ''teams operate'', ''backlogs are'',
     ''shared decisions'']"

text \<open>Lines 106-109: the trimmed texts of the non-empty paragraphs before position \<open>i\<close>.\<close>

definition prev_texts :: "para list \<Rightarrow> nat \<Rightarrow> pystr list" where
  "prev_texts all_paragraphs current_index =
     filter (\<lambda>t. t \<noteq> []) (map (\<lambda>q. strip (p_text q)) (take current_index all_paragraphs))"

text \<open>Lines 112-116: the condition under which a level-0 paragraph follows a header.\<close>

definition follows_header :: "case_tables \<Rightarrow> pystr list \<Rightarrow> pystr \<Rightarrow> bool" where
  "follows_header ucd prevs txt \<longleftrightarrow>
     prevs \<noteq> [] \<and> length (split (last prevs)) \<le> 3 \<and> \<not> endswith_colon (last prevs) \<and>
     length (split txt) > 2 \<and> (\<exists>keyword \<in> set context_keywords. py_in keyword (lower ucd txt))"

text \<open>
  Lines 98-121, \<open>all_paragraphs\<close> being the list read at line 101. A ValueError of
  \<open>index\<close> is caught and leaves the bullet empty; with the objects of the library,
  built anew at line 101, this is the branch taken.
\<close>

definition context_bullet :: "case_tables \<Rightarrow> para list \<Rightarrow> para \<Rightarrow> pystr \<Rightarrow> pystr" where
  "context_bullet ucd all_paragraphs p txt =
     (case py_index all_paragraphs p of
        None \<Rightarrow> []
      | Some current_index \<Rightarrow>
          if follows_header ucd (prev_texts all_paragraphs current_index) txt
          then [BULLET, SP] else [])"

text \<open>Lines 125-126: the text contains one of the fixed phrases.\<close>

definition slide2_match :: "case_tables \<Rightarrow> pystr \<Rightarrow> bool" where
  "slide2_match ucd txt \<longleftrightarrow>
     (\<exists>pattern \<in> set slide2_patterns. py_in pattern (lower ucd txt))"

text \<open>
  Lines 42-128: the bullet and the display text of a non-empty paragraph \<open>p\<close> of a
  shape, \<open>all_paragraphs\<close> being the paragraph list the shape gives when read again.
\<close>

definition resolve_bullet :: "case_tables \<Rightarrow> para list \<Rightarrow> para \<Rightarrow> pystr \<times> pystr" where
  "resolve_bullet ucd all_paragraphs p =
     (let level = p_level p;
          txt0 = strip (p_text p);
          (has1, ob1) = ppr_bullet p;
          has_ppt_bullet = run_bullet p has1;
          (ob2, txt) = text_bullet bullet_chars ob1 txt0;
          ob3 = (if has_ppt_bullet \<and> ob2 = [] then default_bullet level else ob2);
          ob4 = (if ob3 = [] \<and> level > 0 then default_bullet level else ob3);
          ob5 = (if ob4 = [] \<and> level = 0 then context_bullet ucd all_paragraphs p txt
                 else ob4);
          ob6 = (if ob5 = [] \<and> level = 0 then
                   (if slide2_match ucd txt then [BULLET, SP] else ob5)
                 else ob5)
      in (ob6, txt))"

text \<open>Lines 46 and 129: \<open>indent + original_bullet + text\<close> with two spaces per level.\<close>

definition indent_of :: "nat \<Rightarrow> pystr" where
  "indent_of level = concat (replicate level [SP, SP])"

definition formatted_line :: "case_tables \<Rightarrow> para list \<Rightarrow> para \<Rightarrow> pystr" where
  "formatted_line ucd all_paragraphs p =
     (case resolve_bullet ucd all_paragraphs p of
        (original_bullet, txt) \<Rightarrow> indent_of (p_level p) @ original_bullet @ txt)"

text \<open>Lines 40-130: one line per paragraph whose trimmed text is not empty, in order.\<close>

definition structured_lines :: "case_tables \<Rightarrow> TextFrame \<Rightarrow> pystr list" where
  "structured_lines ucd tf =
     map (formatted_line ucd (paragraphs_again tf))
       (filter (\<lambda>p. strip (p_text p) \<noteq> []) (paragraphs tf))"

section \<open>Flat text\<close>

text \<open>Lines 184-189: the bullet of a synthesized list item, by estimated level.\<close>

definition flat_bullet :: "nat \<Rightarrow> pystr" where
  "flat_bullet indent_level =
     (if indent_level = 0 then [BULLET, SP]
      else if indent_level = 1 then [WHITE_BULLET, SP]
      else [SMALL_SQUARE, SP])"

definition flat_words :: "pystr list" where
  "flat_words = map ascii [''align'', ''coordinate'', ''use'', ''teams'', ''incremental'',
     ''cross'', ''iterative'', ''backlogs'', ''decisions'', ''shared'']"

text \<open>Lines 156-178: the three cases that make a line without a glyph a list item.\<close>

definition should_be_bullet :: "case_tables \<Rightarrow> pystr list \<Rightarrow> pystr \<Rightarrow> bool" where
  "should_be_bullet ucd preceding_lines stripped_line =
     (if preceding_lines \<noteq> [] \<and>
         (endswith_colon (last preceding_lines) \<or> length (split (last preceding_lines)) \<le> 3) \<and>
         length (split stripped_line) > 1 \<and> \<not> endswith_colon stripped_line
      then True
      else if preceding_lines \<noteq> [] \<and>
         (\<exists>b \<in> set bullet_chars. startswith (last preceding_lines) [b]) \<and>
         length (split stripped_line) > 1 \<and> \<not> endswith_colon stripped_line
      then True
      else if length (split stripped_line) > 1 \<and> \<not> endswith_colon stripped_line \<and>
         (isupper ucd (hd stripped_line) \<or>
          (\<exists>word \<in> set flat_words. py_in word (lower ucd stripped_line)))
      then True
      else False)"

text \<open>Line 141: the level estimated from the leading whitespace, two characters a level.\<close>

definition estimated_level :: "pystr \<Rightarrow> nat" where
  "estimated_level raw_line =
     (let line = rstrip raw_line; stripped_line = lstrip line
      in (length line - length stripped_line) div 2)"

text \<open>
  Lines 134-194, one pass of the loop over the raw lines: \<open>text_content\<close> before and
  after. \<open>stripped_line[0]\<close> is read only where the line is not empty.
\<close>

definition flat_step :: "case_tables \<Rightarrow> pystr list \<Rightarrow> pystr \<Rightarrow> pystr list" where
  "flat_step ucd text_content raw_line =
     (let line = rstrip raw_line in
      if strip line = [] then text_content
      else
        let stripped_line = lstrip line;
            indent_level = estimated_level raw_line
        in if \<exists>b \<in> set bullet_chars. startswith stripped_line [b]
           then text_content @ [stripped_line]
           else
             let preceding_lines = filter (\<lambda>l. strip l \<noteq> []) text_content
             in if should_be_bullet ucd preceding_lines stripped_line
                then text_content @
                       [indent_of indent_level @ flat_bullet indent_level @ stripped_line]
                else text_content @ [stripped_line])"

definition flat_lines :: "case_tables \<Rightarrow> pystr \<Rightarrow> pystr list" where
  "flat_lines ucd t = foldl (flat_step ucd) [] (split_nl t)"

section \<open>Shapes and slides\<close>

text \<open>
  The exceptions that leave the work on a shape: the AttributeError of a read on a
  missing text frame, the NotImplementedError of the read of a shape type, and
  \<open>ReadError\<close> for an exception other than AttributeError raised by the read of a
  name.
\<close>

datatype py_error = AttributeError | NotImplementedError | ReadError

text \<open>
  Reading \<open>shape.placeholder_format\<close> raises on a shape that is not a placeholder
  (\<open>PhRaises\<close>), is absent or false (\<open>PhAbsent\<close>), or gives a format with an index.
  Reading \<open>shape.shape_type\<close> gives the picture type, another type, or raises.
  Reading \<open>shape.name\<close> raises an exception other than AttributeError (\<open>NameRaises\<close>),
  finds no attribute (\<open>NameAbsent\<close>), or gives the name.
\<close>

datatype placeholder_access = PhRaises | PhAbsent | PhIdx nat

datatype shape_type_access = TypeRaises | PICTURE | OTHER_TYPE

datatype name_access = NameRaises | NameAbsent | Name pystr

text \<open>An element whose tag ends in \<open>cNvPr\<close>, with its \<open>descr\<close> and \<open>title\<close> attributes.\<close>

record cNvPr =
  descr :: "pystr option"
  cn_title :: "pystr option"

text \<open>
  A shape, as far as the script reads it. An optional field is \<open>None\<close> when the
  attribute is absent (\<open>hasattr\<close> is false); \<open>text_frame\<close> is \<open>None\<close> also when the
  attribute is there and None. \<open>element\<close> lists the \<open>cNvPr\<close> elements of
  \<open>shape._element.iter()\<close> in order, and is \<open>None\<close> when that read raises.
\<close>

record shape =
  placeholder_format :: placeholder_access
  s_text :: "pystr option"
  text_frame :: "TextFrame option"
  shape_type :: shape_type_access
  description :: "pystr option"
  alt_text :: "pystr option"
  element :: "cNvPr list option"
  name :: name_access

text \<open>
  \<open>extract_text_from_shape\<close>. A shape with a text frame takes the first branch. A shape
  without one and with non-blank text runs the loop over its raw lines and then reads
  \<open>shape.text_frame.paragraphs\<close> (line 196); in this branch the text frame is absent or
  None, so the read raises AttributeError and the lines collected so far are lost. The
  body of that second loop (lines 197-281) cannot run and is not modelled.
\<close>

definition extract_text_from_shape :: "case_tables \<Rightarrow> shape \<Rightarrow> py_error + pystr list" where
  "extract_text_from_shape ucd s =
     (case text_frame s of
        Some tf \<Rightarrow> Inr (structured_lines ucd tf)
      | None \<Rightarrow>
          (case s_text s of
             None \<Rightarrow> Inr []
           | Some t \<Rightarrow>
               if strip t \<noteq> [] then
                 (let text_content = flat_lines ucd t
                  in case text_frame s of
                       None \<Rightarrow> Inl AttributeError
                     | Some tf \<Rightarrow> Inr (text_content @ structured_lines ucd tf))
               else Inr []))"

text \<open>Methods 2 and 3 (lines 344-349, 356-361): the first attribute that is not blank.\<close>

fun first_attr :: "(cNvPr \<Rightarrow> pystr option) \<Rightarrow> cNvPr list \<Rightarrow> pystr" where
  "first_attr get [] = []"
| "first_attr get (el # els) =
     (case get el of
        Some v \<Rightarrow> if v \<noteq> [] \<and> strip v \<noteq> [] then v else first_attr get els
      | None \<Rightarrow> first_attr get els)"

definition generic_name :: "pystr \<Rightarrow> bool" where
  "generic_name n \<longleftrightarrow>
     startswith n (ascii ''Picture '') \<or> startswith n (ascii ''Graphic '') \<or>
     startswith n (ascii ''Image '')"

text \<open>
  Lines 333-375: the value of \<open>alt_text\<close> after the four methods. Method 4 reads the
  name only when nothing was found before; when that read raises, the exception is
  swallowed at line 373 and \<open>alt_text\<close> stays empty.
\<close>

definition find_alt_text :: "shape \<Rightarrow> pystr" where
  "find_alt_text s =
     (let a1 = (case description s of
                  Some d \<Rightarrow> if d \<noteq> [] then d
                            else (case alt_text s of Some a \<Rightarrow> a | None \<Rightarrow> [])
                | None \<Rightarrow> (case alt_text s of Some a \<Rightarrow> a | None \<Rightarrow> []));
          a2 = (if a1 = [] then
                  (case element s of Some els \<Rightarrow> first_attr descr els | None \<Rightarrow> [])
                else a1);
          a3 = (if a2 = [] then
                  (case element s of Some els \<Rightarrow> first_attr cn_title els | None \<Rightarrow> [])
                else a2)
      in case name s of
           Name n \<Rightarrow>
             if a3 = [] \<and> n \<noteq> [] then
               (if \<not> generic_name (strip n) then strip n else a3)
             else a3
         | _ \<Rightarrow> a3)"

text \<open>
  Lines 378-383: the entry appended to the image list, \<open>images\<close> being the list so far.
  The \<open>getattr\<close> of line 382 is outside the \<open>try\<close> of the four methods and takes its
  default only when the attribute is missing: when the read of the name raises another
  exception, no entry is made and the exception leaves the work on the shape.
\<close>

definition image_entry :: "shape \<Rightarrow> pystr list \<Rightarrow> py_error + pystr" where
  "image_entry s images =
     (let a = find_alt_text s in
      if a \<noteq> [] \<and> strip a \<noteq> [] then Inr (strip a)
      else
        (case name s of
           NameRaises \<Rightarrow> Inl ReadError
         | Name n \<Rightarrow> Inr (ascii ''[No alt-text] '' @ n)
         | NameAbsent \<Rightarrow>
             Inr (ascii ''[No alt-text] '' @ ascii ''Image_'' @ str_nat (length images + 1))))"

record slide =
  shapes :: "shape list"
  notes_text :: "pystr option"

record slide_content =
  title :: pystr
  content :: "pystr list"
  sc_notes :: pystr
  images :: "pystr list"

text \<open>
  Lines 300-310, one pass of the title loop. The \<open>continue\<close> of line 307 ends a pass that
  has nothing left to do, so the loop goes on to the next shape.
\<close>

definition title_step :: "pystr \<Rightarrow> shape \<Rightarrow> pystr" where
  "title_step t s =
     (case placeholder_format s of
        PhIdx i \<Rightarrow>
          if i = 0 then
            (case s_text s of
               Some x \<Rightarrow> if strip x \<noteq> [] then strip x else t
             | None \<Rightarrow> t)
          else t
      | _ \<Rightarrow> t)"

text \<open>Lines 317-325.\<close>

definition is_title_placeholder :: "shape \<Rightarrow> bool" where
  "is_title_placeholder s = (case placeholder_format s of PhIdx i \<Rightarrow> i = 0 | _ \<Rightarrow> False)"

text \<open>
  Lines 331-387, the work on one shape that is not a title placeholder: the content
  and image lists after it, or the exception that leaves the \<open>try\<close> block.
\<close>

definition process_shape ::
  "case_tables \<Rightarrow> shape \<Rightarrow> pystr list \<times> pystr list \<Rightarrow>
   py_error + pystr list \<times> pystr list" where
  "process_shape ucd s st =
     (case st of (cont, imgs) \<Rightarrow>
        (case shape_type s of
           TypeRaises \<Rightarrow> Inl NotImplementedError
         | PICTURE \<Rightarrow>
             (case image_entry s imgs of
                Inl e \<Rightarrow> Inl e
              | Inr d \<Rightarrow> Inr (cont, imgs @ [d]))
         | OTHER_TYPE \<Rightarrow>
             (case extract_text_from_shape ucd s of
                Inl e \<Rightarrow> Inl e
              | Inr shape_text \<Rightarrow> Inr (cont @ shape_text, imgs))))"

text \<open>
  Lines 314-391, one pass of the content loop. The state is the content list, the
  image list and the warnings printed so far (each the exception it reports).
\<close>

definition content_step ::
  "case_tables \<Rightarrow> (pystr list \<times> pystr list) \<times> py_error list \<Rightarrow> shape \<Rightarrow>
   (pystr list \<times> pystr list) \<times> py_error list" where
  "content_step ucd acc s =
     (case acc of (st, warnings) \<Rightarrow>
        if is_title_placeholder s then (st, warnings)
        else (case process_shape ucd s st of
                Inl e \<Rightarrow> (st, warnings @ [e])
              | Inr st' \<Rightarrow> (st', warnings)))"

text \<open>\<open>extract_slide_text\<close>: the record of the slide and the warnings printed.\<close>

definition extract_slide_text :: "case_tables \<Rightarrow> slide \<Rightarrow> slide_content \<times> py_error list" where
  "extract_slide_text ucd sl =
     (let t = foldl title_step [] (shapes sl);
          acc = foldl (content_step ucd) (([], []), []) (shapes sl);
          n = (case notes_text sl of
                 Some x \<Rightarrow> if strip x \<noteq> [] then strip x else []
               | None \<Rightarrow> [])
      in (\<lparr>title = t, content = fst (fst acc), sc_notes = n, images = snd (fst acc)\<rparr>,
          snd acc))"


section \<open>Notions used in the statements\<close>

text \<open>The literal character of an \<open>a:buChar\<close> child, if the paragraph has one.\<close>

definition attr_glyph :: "para \<Rightarrow> pystr option" where
  "attr_glyph p =
     (case p_pPr p of
        None \<Rightarrow> None
      | Some ppr \<Rightarrow> (case buChar ppr of Some (Some c) \<Rightarrow> Some c | _ \<Rightarrow> None))"

text \<open>The trimmed text begins with one of the five glyphs.\<close>

definition has_text_glyph :: "para \<Rightarrow> bool" where
  "has_text_glyph p \<longleftrightarrow> (\<exists>b \<in> set bullet_chars. startswith (strip (p_text p)) [b])"

text \<open>
  The paragraph has one of the children \<open>buChar\<close>, \<open>buAutoNum\<close>, \<open>buBlip\<close>, \<open>buFont\<close>,
  or a run with \<open>buChar\<close>: a signal that it has a bullet.
\<close>

definition bullet_signal :: "para \<Rightarrow> bool" where
  "bullet_signal p \<longleftrightarrow>
     (case p_pPr p of
        None \<Rightarrow> False
      | Some ppr \<Rightarrow> buChar ppr \<noteq> None \<or> buAutoNum ppr \<or> buBlip ppr \<or> buFont ppr) \<or>
     (\<exists>r \<in> set (p_runs p). r)"

text \<open>The paragraph has an \<open>a:buNone\<close> child.\<close>

definition explicit_no_bullet :: "para \<Rightarrow> bool" where
  "explicit_no_bullet p \<longleftrightarrow> (case p_pPr p of None \<Rightarrow> False | Some ppr \<Rightarrow> buNone ppr)"

text \<open>The same paragraph object with the \<open>a:buNone\<close> child taken away.\<close>

definition without_buNone :: "para \<Rightarrow> para" where
  "without_buNone p = p\<lparr>p_pPr := map_option (\<lambda>ppr. ppr\<lparr>buNone := False\<rparr>) (p_pPr p)\<rparr>"

text \<open>The length of the run of whitespace a line begins with.\<close>

definition leading_ws :: "pystr \<Rightarrow> nat" where
  "leading_ws l = length (takeWhile isspace l)"

text \<open>
  The continuation condition in the words of the specification (4.1, step 5), on the
  lines rendered so far in the shape and the current text.
\<close>

definition spec_continuation :: "pystr list \<Rightarrow> pystr \<Rightarrow> bool" where
  "spec_continuation rendered txt \<longleftrightarrow>
     (let prevs = filter (\<lambda>l. strip l \<noteq> []) rendered in
      prevs \<noteq> [] \<and>
      ((length (split (last prevs)) \<le> 3 \<and> \<not> endswith_colon (last prevs)) \<or>
       (\<exists>b \<in> set bullet_chars. startswith (lstrip (last prevs)) [b])) \<and>
      length (split txt) > 2 \<and> \<not> endswith_colon txt)"

text \<open>An optional string is absent or blank.\<close>

definition blank :: "pystr option \<Rightarrow> bool" where
  "blank v \<longleftrightarrow> (case v of None \<Rightarrow> True | Some x \<Rightarrow> strip x = [])"

text \<open>
  No description, no metadata description, no metadata title and no name that is not
  generic: each is absent or blank (the name may also be generic, or not readable).
\<close>

definition no_real_alt_text :: "shape \<Rightarrow> bool" where
  "no_real_alt_text s \<longleftrightarrow>
     blank (description s) \<and> blank (alt_text s) \<and>
     (case element s of
        None \<Rightarrow> True
      | Some els \<Rightarrow> \<forall>el \<in> set els. blank (descr el) \<and> blank (cn_title el)) \<and>
     (case name s of Name n \<Rightarrow> strip n = [] \<or> generic_name (strip n) | _ \<Rightarrow> True)"

section \<open>Example inputs\<close>

text \<open>
  The examples contain ASCII text and the bullet glyphs only. Where ASCII text is put
  in lower case no table is read; the examples are stated with tables that leave other
  text as it is.
\<close>

definition plain_tables :: case_tables where
  "plain_tables = \<lparr>unicode_lower = (\<lambda>s. s), unicode_isupper = (\<lambda>c. False)\<rparr>"

text \<open>
  A paragraph object without properties and runs, and properties without any child.
  The paragraph objects of the examples have identities below 100.
\<close>

definition para_plain :: "nat \<Rightarrow> pystr \<Rightarrow> nat \<Rightarrow> para" where
  "para_plain i t l = \<lparr>p_id = i, p_text = t, p_level = l, p_pPr = None, p_runs = []\<rparr>"

definition ppr_none :: pPr where
  "ppr_none = \<lparr>buChar = None, buAutoNum = False, buBlip = False, buFont = False,
     buNone = False\<rparr>"

text \<open>
  The text frame of the library over given paragraphs: the second read gives new
  objects with the same contents. The text frame of a tree that keeps its paragraph
  objects gives the same objects again.
\<close>

definition new_object :: "para \<Rightarrow> para" where
  "new_object p = p\<lparr>p_id := p_id p + 100\<rparr>"

definition library_frame :: "para list \<Rightarrow> TextFrame" where
  "library_frame ps = \<lparr>paragraphs = ps, paragraphs_again = map new_object ps\<rparr>"

definition fixed_frame :: "para list \<Rightarrow> TextFrame" where
  "fixed_frame ps = \<lparr>paragraphs = ps, paragraphs_again = ps\<rparr>"

text \<open>A paragraph "- item" whose properties give the bullet character ">".\<close>

definition para_attr_and_dash :: para where
  "para_attr_and_dash =
     \<lparr>p_id = 0, p_text = ascii ''- item'', p_level = 0,
      p_pPr = Some (ppr_none\<lparr>buChar := Some (Some (ascii ''>''))\<rparr>), p_runs = []\<rparr>"

text \<open>
  A paragraph "Hello" at level 1 whose properties say \<open>buNone\<close>, and a paragraph
  "Hello" at level 0 whose properties say \<open>buNone\<close> and have a \<open>buFont\<close> child.
\<close>

definition para_bunone :: para where
  "para_bunone =
     \<lparr>p_id = 0, p_text = ascii ''Hello'', p_level = 1,
      p_pPr = Some (ppr_none\<lparr>buNone := True\<rparr>), p_runs = []\<rparr>"

definition para_bunone_font :: para where
  "para_bunone_font =
     \<lparr>p_id = 0, p_text = ascii ''Hello'', p_level = 0,
      p_pPr = Some (ppr_none\<lparr>buNone := True, buFont := True\<rparr>), p_runs = []\<rparr>"

text \<open>A paragraph "- item" at level 2, without properties.\<close>

definition para_dash_level2 :: para where
  "para_dash_level2 = para_plain 0 (ascii ''- item'') 2"

text \<open>
  A short header line, a line of four words without a keyword to follow it, and a
  line that contains one of the fixed phrases.
\<close>

definition para_header :: para where
  "para_header = para_plain 0 (ascii ''Header'') 0"

definition para_run :: para where
  "para_run = para_plain 1 (ascii ''Run the tool now'') 0"

definition para_teams :: para where
  "para_teams = para_plain 0 (ascii ''Teams operate daily'') 0"

text \<open>A paragraph "Hello" at level 0 whose \<open>buChar\<close> child has an empty \<open>char\<close>.\<close>

definition para_empty_char :: para where
  "para_empty_char =
     \<lparr>p_id = 0, p_text = ascii ''Hello'', p_level = 0,
      p_pPr = Some (ppr_none\<lparr>buChar := Some (Some [])\<rparr>), p_runs = []\<rparr>"

text \<open>
  A shape that is not a placeholder, has no text, no text frame and no name, and is
  not a picture; the examples below change some of its fields.
\<close>

definition shape_plain :: shape where
  "shape_plain =
     \<lparr>placeholder_format = PhRaises, s_text = None, text_frame = None,
      shape_type = OTHER_TYPE, description = None, alt_text = None, element = None,
      name = NameAbsent\<rparr>"

text \<open>The flat-text shape of scenario C: text "  - Item one\nItem two", no text frame.\<close>

definition flat_text :: pystr where
  "flat_text = ascii ''  - Item one'' @ [NL] @ ascii ''Item two''"

definition flat_shape :: shape where
  "flat_shape = shape_plain\<lparr>s_text := Some flat_text\<rparr>"

text \<open>A title placeholder with the given text.\<close>

definition title_shape :: "pystr \<Rightarrow> shape" where
  "title_shape t =
     shape_plain\<lparr>placeholder_format := PhIdx 0, s_text := Some t,
       text_frame := Some (library_frame [para_plain 0 t 0])\<rparr>"

text \<open>A text shape with the one paragraph "Header", and a picture named "Picture 3".\<close>

definition header_shape :: shape where
  "header_shape = shape_plain\<lparr>s_text := Some (ascii ''Header''),
     text_frame := Some (library_frame [para_header])\<rparr>"

definition picture3 :: shape where
  "picture3 = shape_plain\<lparr>shape_type := PICTURE, name := Name (ascii ''Picture 3'')\<rparr>"

text \<open>A slide with two title placeholders, "First" and "Second".\<close>

definition two_titles :: slide where
  "two_titles =
     \<lparr>shapes = [title_shape (ascii ''First''), title_shape (ascii ''Second'')],
      notes_text = None\<rparr>"

text \<open>A title placeholder whose text is blank.\<close>

definition blank_title_shape :: shape where
  "blank_title_shape = title_shape (ascii ''  '')"

text \<open>
  A picture without any description whose name cannot be read: the read raises an
  exception other than AttributeError.
\<close>

definition picture_name_raises :: shape where
  "picture_name_raises =
     shape_plain\<lparr>shape_type := PICTURE,
       element := Some [\<lparr>descr = None, cn_title = None\<rparr>], name := NameRaises\<rparr>"

section \<open>Lemmas\<close>

text \<open>The definitions unfolded to evaluate a string function on a literal.\<close>

lemmas ev = ascii_def strip_def lstrip_def rstrip_def isspace_def startswith_def SP_def COLON_def
  NL_def BULLET_def WHITE_BULLET_def SMALL_SQUARE_def HYPHEN_def STAR_def bullet_chars_def
  split_def endswith_colon_def lower_def lower_char_def isupper_def

text \<open>On ASCII text no case table is read.\<close>

lemma lower_ascii: "list_all (\<lambda>c. c < 128) s \<Longrightarrow> lower ucd s = map lower_char s"
  by (simp add: lower_def)

lemma startswith_single: "startswith s [b] \<longleftrightarrow> s \<noteq> [] \<and> hd s = b"
  by (cases s) (auto simp: startswith_def)

lemma text_bullet_none:
  "\<forall>b \<in> set bs. \<not> startswith s [b] \<Longrightarrow> text_bullet bs ob s = (ob, s)"
  by (induction bs) auto

lemma text_bullet_some:
  "b \<in> set bs \<Longrightarrow> text_bullet bs ob (b # rest) =
     ((if ob = [] then [b, SP] else ob), strip rest)"
  by (induction bs) (auto simp: startswith_single)

lemma snd_ppr_bullet:
  "snd (ppr_bullet p) = (case attr_glyph p of None \<Rightarrow> [] | Some c \<Rightarrow> c @ [SP])"
  by (auto simp: ppr_bullet_def attr_glyph_def split: option.splits)

lemma run_bullet_signal: "run_bullet p (fst (ppr_bullet p)) = bullet_signal p"
  by (auto simp: run_bullet_def ppr_bullet_def bullet_signal_def split: option.splits)

lemma default_bullet_nonempty: "default_bullet level \<noteq> []"
  by (auto simp: default_bullet_def default_bullets_def nth_Cons split: nat.splits)

lemma default_bullet_cases:
  "default_bullet level =
     (if level = 0 then [BULLET, SP] else if level = 1 then [WHITE_BULLET, SP]
      else if level = 2 then [SMALL_SQUARE, SP] else [HYPHEN, SP])"
  by (auto simp: default_bullet_def default_bullets_def nth_Cons numeral_2_eq_2 split: nat.splits)

text \<open>The resolver without a text glyph: what is left of lines 87-127.\<close>

lemma resolve_bullet_no_text_glyph:
  assumes "\<not> has_text_glyph p"
  shows "resolve_bullet ucd ps p =
     (let t = strip (p_text p);
          ob1 = (case attr_glyph p of None \<Rightarrow> [] | Some c \<Rightarrow> c @ [SP]);
          ob3 = (if bullet_signal p \<and> ob1 = [] then default_bullet (p_level p) else ob1);
          ob4 = (if ob3 = [] \<and> 0 < p_level p then default_bullet (p_level p) else ob3);
          ob5 = (if ob4 = [] \<and> p_level p = 0 then context_bullet ucd ps p t else ob4);
          ob6 = (if ob5 = [] \<and> p_level p = 0 \<and> slide2_match ucd t then [BULLET, SP]
                 else ob5)
      in (ob6, t))"
proof -
  from assms have tb: "\<And>ob. text_bullet bullet_chars ob (strip (p_text p)) = (ob, strip (p_text p))"
    by (intro text_bullet_none) (simp add: has_text_glyph_def)
  obtain h ob where pb: "ppr_bullet p = (h, ob)" by (cases "ppr_bullet p")
  have ob: "ob = (case attr_glyph p of None \<Rightarrow> [] | Some c \<Rightarrow> c @ [SP])"
    using snd_ppr_bullet [of p] pb by simp
  have h: "run_bullet p h = bullet_signal p"
    using run_bullet_signal [of p] pb by simp
  show ?thesis
    unfolding resolve_bullet_def Let_def pb prod.case tb h ob
    by (simp add: default_bullet_nonempty)
qed

lemma resolve_bullet_text_glyph:
  assumes "strip (p_text p) = b # rest" and "b \<in> set bullet_chars"
  shows "resolve_bullet ucd ps p =
     ((case attr_glyph p of Some c \<Rightarrow> c @ [SP] | None \<Rightarrow> [b, SP]), strip rest)"
proof -
  obtain h ob where pb: "ppr_bullet p = (h, ob)" by (cases "ppr_bullet p")
  have ob: "ob = (case attr_glyph p of None \<Rightarrow> [] | Some c \<Rightarrow> c @ [SP])"
    using snd_ppr_bullet [of p] pb by simp
  have tb: "text_bullet bullet_chars ob (strip (p_text p)) =
      ((if ob = [] then [b, SP] else ob), strip rest)"
    using assms by (simp add: text_bullet_some)
  show ?thesis
    unfolding resolve_bullet_def Let_def pb prod.case tb
    by (simp add: ob split: option.splits)
qed

lemma no_signal_no_attr_glyph: "\<not> bullet_signal p \<Longrightarrow> attr_glyph p = None"
  by (auto simp: bullet_signal_def attr_glyph_def split: option.splits)

lemma context_bullet_cases:
  "context_bullet ucd ps p t = [] \<or> context_bullet ucd ps p t = [BULLET, SP]"
  by (auto simp: context_bullet_def split: option.splits)

lemma context_bullet_iff:
  "context_bullet ucd ps p t \<noteq> [] \<longleftrightarrow>
     (\<exists>i. py_index ps p = Some i \<and> follows_header ucd (prev_texts ps i) t)"
  by (auto simp: context_bullet_def split: option.splits)

lemma context_bullet_not_found: "py_index ps p = None \<Longrightarrow> context_bullet ucd ps p t = []"
  by (simp add: context_bullet_def)

lemma resolve_bullet_above_level0:
  assumes "\<not> has_text_glyph p" and "attr_glyph p = None" and "0 < p_level p"
  shows "resolve_bullet ucd ps p = (default_bullet (p_level p), strip (p_text p))"
  using assms by (simp add: resolve_bullet_no_text_glyph default_bullet_nonempty)

lemma resolve_bullet_level0:
  assumes "\<not> has_text_glyph p" and "\<not> bullet_signal p" and "p_level p = 0"
  shows "resolve_bullet ucd ps p =
     ((if context_bullet ucd ps p (strip (p_text p)) \<noteq> [] \<or>
          slide2_match ucd (strip (p_text p))
       then [BULLET, SP] else []), strip (p_text p))"
  using assms context_bullet_cases [of ucd ps p "strip (p_text p)"]
  by (auto simp: resolve_bullet_no_text_glyph no_signal_no_attr_glyph Let_def)

text \<open>The \<open>a:buNone\<close> child is read by no step of the resolver.\<close>

lemma resolve_bullet_without_buNone:
  "resolve_bullet ucd ps (without_buNone p) = resolve_bullet ucd ps p"
proof -
  have 1: "ppr_bullet (without_buNone p) = ppr_bullet p"
    by (auto simp: ppr_bullet_def without_buNone_def split: option.splits)
  have 2: "run_bullet (without_buNone p) h = run_bullet p h" for h
    by (simp add: run_bullet_def without_buNone_def)
  have 3: "py_index ps (without_buNone p) = py_index ps p"
    by (induction ps) (simp_all add: without_buNone_def)
  have 4: "context_bullet ucd ps (without_buNone p) t = context_bullet ucd ps p t" for t
    by (simp add: context_bullet_def 3)
  have 5: "p_text (without_buNone p) = p_text p" "p_level (without_buNone p) = p_level p"
    by (simp_all add: without_buNone_def)
  show ?thesis
    unfolding resolve_bullet_def 1 2 4 5 ..
qed

lemma para_plain_no_signal: "\<not> bullet_signal (para_plain i t l)"
  by (simp add: bullet_signal_def para_plain_def)

lemma no_keyword_run:
  "\<not> (\<exists>k \<in> set context_keywords. py_in k (lower ucd (ascii ''Run the tool now'')))"
  by (simp add: context_keywords_def ev)

lemma no_pattern_run: "\<not> slide2_match ucd (ascii ''Run the tool now'')"
  by (simp add: slide2_match_def slide2_patterns_def ev)

lemma pattern_teams: "slide2_match ucd (ascii ''Teams operate daily'')"
  by (simp add: slide2_match_def slide2_patterns_def ev)

lemma example_level0: "p_level para_header = 0" "p_level para_run = 0" "p_level para_teams = 0"
  by (simp_all add: para_run_def para_header_def para_teams_def para_plain_def)

lemma example_no_signal:
  "\<not> bullet_signal para_header" "\<not> bullet_signal para_run" "\<not> bullet_signal para_teams"
  by (simp_all add: para_run_def para_header_def para_teams_def para_plain_no_signal)

lemma example_no_glyph:
  "\<not> has_text_glyph para_header" "\<not> has_text_glyph para_run" "\<not> has_text_glyph para_teams"
  by (simp_all add: has_text_glyph_def para_run_def para_header_def para_teams_def
      para_plain_def ev)

lemma example_strip:
  "strip (p_text para_header) = ascii ''Header''"
  "strip (p_text para_run) = ascii ''Run the tool now''"
  "strip (p_text para_teams) = ascii ''Teams operate daily''"
  by (simp_all add: para_run_def para_header_def para_teams_def para_plain_def ev)

lemma resolve_header: "resolve_bullet ucd ps para_header = ([], ascii ''Header'')"
proof -
  have nk: "\<not> (\<exists>k \<in> set context_keywords. py_in k (lower ucd (ascii ''Header'')))"
    by (simp add: context_keywords_def ev)
  have np: "\<not> slide2_match ucd (ascii ''Header'')"
    by (simp add: slide2_match_def slide2_patterns_def ev)
  show ?thesis
    using resolve_bullet_level0 [OF example_no_glyph(1) example_no_signal(1) example_level0(1),
        of ucd ps]
      nk np context_bullet_iff [of ucd ps para_header "ascii ''Header''"]
    by (simp add: example_strip follows_header_def)
qed

lemma resolve_run: "resolve_bullet ucd ps para_run = ([], ascii ''Run the tool now'')"
  using resolve_bullet_level0 [OF example_no_glyph(2) example_no_signal(2) example_level0(2),
      of ucd ps]
    no_keyword_run [of ucd] no_pattern_run [of ucd]
    context_bullet_iff [of ucd ps para_run "ascii ''Run the tool now''"]
  by (simp add: example_strip follows_header_def)

lemma resolve_teams:
  "resolve_bullet ucd ps para_teams = ([BULLET, SP], ascii ''Teams operate daily'')"
  using resolve_bullet_level0 [OF example_no_glyph(3) example_no_signal(3) example_level0(3),
      of ucd ps] pattern_teams [of ucd]
  by (simp add: example_strip)

lemma index_teams_library:
  "py_index (paragraphs_again (library_frame [para_teams])) para_teams = None"
  by (simp add: library_frame_def new_object_def para_teams_def para_plain_def)

lemma example_lines:
  "formatted_line ucd ps para_header = ascii ''Header''"
  "formatted_line ucd ps para_run = ascii ''Run the tool now''"
  "formatted_line ucd ps para_teams = [BULLET, SP] @ ascii ''Teams operate daily''"
  by (simp_all add: formatted_line_def resolve_header resolve_run resolve_teams example_level0
      indent_of_def)

lemma flat_lines_example:
  "flat_lines ucd flat_text = [ascii ''- Item one'', [BULLET, SP] @ ascii ''Item two'']"
  by (simp add: flat_lines_def flat_text_def split_nl_def flat_step_def estimated_level_def
      should_be_bullet_def indent_of_def flat_bullet_def Let_def ev)

lemma flat_shape_raises: "extract_text_from_shape ucd flat_shape = Inl AttributeError"
proof -
  have "strip flat_text \<noteq> []" by (simp add: flat_text_def ev)
  then show ?thesis
    by (simp add: extract_text_from_shape_def flat_shape_def shape_plain_def)
qed

lemma flat_shape_fails: "process_shape ucd flat_shape st = Inl AttributeError"
proof -
  have "shape_type flat_shape = OTHER_TYPE" by (simp add: flat_shape_def shape_plain_def)
  then show ?thesis by (cases st) (simp add: process_shape_def flat_shape_raises)
qed

lemma flat_shape_no_title: "\<not> is_title_placeholder flat_shape"
  by (simp add: is_title_placeholder_def flat_shape_def shape_plain_def)

lemma image_entry_any_list: "image_entry s imgs = Inl e \<Longrightarrow> image_entry s imgs' = Inl e"
  by (auto simp: image_entry_def Let_def split: name_access.splits if_splits)

lemma process_shape_error_any_state:
  assumes "process_shape ucd s st = Inl e"
  shows "process_shape ucd s st' = Inl e"
proof -
  obtain c i where st: "st = (c, i)" by (cases st)
  obtain c' i' where st': "st' = (c', i')" by (cases st')
  show ?thesis
  proof (cases "shape_type s")
    case TypeRaises
    with assms st st' show ?thesis by (simp add: process_shape_def)
  next
    case PICTURE
    with assms st have "image_entry s i = Inl e"
      by (auto simp: process_shape_def split: sum.splits)
    then have "image_entry s i' = Inl e" by (rule image_entry_any_list)
    with PICTURE st' show ?thesis by (simp add: process_shape_def)
  next
    case OTHER_TYPE
    with assms st st' show ?thesis by (auto simp: process_shape_def split: sum.splits)
  qed
qed

lemma content_step_warnings:
  "content_step ucd (st, w) s =
     (fst (content_step ucd (st, []) s), w @ snd (content_step ucd (st, []) s))"
  by (simp add: content_step_def split: sum.splits)

lemma content_loop_warnings:
  "foldl (content_step ucd) (st, w) ys =
     (fst (foldl (content_step ucd) (st, []) ys),
      w @ snd (foldl (content_step ucd) (st, []) ys))"
proof (induction ys arbitrary: st w)
  case Nil
  then show ?case by simp
next
  case (Cons y ys)
  obtain st' w' where step: "content_step ucd (st, []) y = (st', w')"
    by (cases "content_step ucd (st, []) y")
  have "foldl (content_step ucd) (st, w) (y # ys) = foldl (content_step ucd) (st', w @ w') ys"
    using content_step_warnings [of ucd st w y] step by simp
  also have "\<dots> = (fst (foldl (content_step ucd) (st', []) ys),
      (w @ w') @ snd (foldl (content_step ucd) (st', []) ys))"
    by (rule Cons.IH)
  finally have a: "foldl (content_step ucd) (st, w) (y # ys) =
      (fst (foldl (content_step ucd) (st', []) ys),
       (w @ w') @ snd (foldl (content_step ucd) (st', []) ys))" .
  have "foldl (content_step ucd) (st, []) (y # ys) = foldl (content_step ucd) (st', w') ys"
    using step by simp
  also have "\<dots> = (fst (foldl (content_step ucd) (st', []) ys),
      w' @ snd (foldl (content_step ucd) (st', []) ys))"
    by (rule Cons.IH)
  finally have b: "foldl (content_step ucd) (st, []) (y # ys) =
      (fst (foldl (content_step ucd) (st', []) ys),
       w' @ snd (foldl (content_step ucd) (st', []) ys))" .
  show ?case by (simp only: a b fst_conv snd_conv append_assoc)
qed

lemma title_step_not_title: "\<not> is_title_placeholder s \<Longrightarrow> title_step t s = t"
  by (auto simp: is_title_placeholder_def title_step_def split: placeholder_access.splits)

lemma title_step_blank:
  "(case s_text s of None \<Rightarrow> True | Some x \<Rightarrow> strip x = []) \<Longrightarrow> title_step t s = t"
  by (auto simp: title_step_def split: placeholder_access.splits option.splits)

lemma content_step_title: "is_title_placeholder s \<Longrightarrow> content_step ucd acc s = acc"
  by (cases acc) (simp add: content_step_def)

lemma content_step_error:
  "\<not> is_title_placeholder s \<Longrightarrow> process_shape ucd s st0 = Inl e \<Longrightarrow>
   content_step ucd (st, w) s = (st, w @ [e])"
  using process_shape_error_any_state [of ucd s st0 e st] by (simp add: content_step_def)

lemma title_shape_is_title: "is_title_placeholder (title_shape t)"
  by (simp add: is_title_placeholder_def title_shape_def shape_plain_def)

lemma title_step_title_shape:
  "title_step t0 (title_shape t) = (if strip t \<noteq> [] then strip t else t0)"
  by (simp add: title_step_def title_shape_def shape_plain_def)

lemma first_attr_blank:
  "\<forall>el \<in> set els. blank (get el) \<Longrightarrow> first_attr get els = []"
  by (induction els) (auto simp: blank_def split: option.splits)

lemma generic_name_Nil: "\<not> generic_name []"
  by (simp add: generic_name_def startswith_def ascii_def)

lemma find_alt_text_blank: "no_real_alt_text s \<Longrightarrow> strip (find_alt_text s) = []"
proof -
  assume a: "no_real_alt_text s"
  have strip_Nil: "strip [] = []" by (simp add: strip_def lstrip_def rstrip_def)
  from a have d: "blank (description s)" and al: "blank (alt_text s)"
    and nm: "case name s of Name n \<Rightarrow> strip n = [] \<or> generic_name (strip n) | _ \<Rightarrow> True"
    by (simp_all add: no_real_alt_text_def)
  from a have e1: "(case element s of Some els \<Rightarrow> first_attr descr els | None \<Rightarrow> []) = []"
    and e2: "(case element s of Some els \<Rightarrow> first_attr cn_title els | None \<Rightarrow> []) = []"
    by (auto simp: no_real_alt_text_def first_attr_blank split: option.splits)
  define a1 where "a1 = (case description s of
        Some d \<Rightarrow> if d \<noteq> [] then d else (case alt_text s of Some a \<Rightarrow> a | None \<Rightarrow> [])
      | None \<Rightarrow> (case alt_text s of Some a \<Rightarrow> a | None \<Rightarrow> []))"
  have a1: "strip a1 = []"
    using d al by (auto simp: a1_def blank_def strip_Nil split: option.splits)
  have fa: "find_alt_text s =
      (case name s of
         Name n \<Rightarrow> if a1 = [] \<and> n \<noteq> [] then (if \<not> generic_name (strip n) then strip n else a1)
                   else a1
       | _ \<Rightarrow> a1)"
    unfolding find_alt_text_def Let_def a1_def [symmetric] e1 e2
    by (auto split: name_access.splits)
  show ?thesis
    unfolding fa using a1 nm
    by (auto simp: strip_Nil generic_name_Nil split: name_access.splits)
qed

text \<open>
  Where the read of the name does not raise, or a description was found, a picture gets
  an entry and the entry is not empty; without a description it is the sentinel.
\<close>

lemma image_entry_returns:
  assumes "name s \<noteq> NameRaises \<or> strip (find_alt_text s) \<noteq> []"
  shows "\<exists>d. image_entry s imgs = Inr d \<and> d \<noteq> [] \<and>
           (no_real_alt_text s \<longrightarrow>
              d = ascii ''[No alt-text] '' @
                  (case name s of
                     Name n \<Rightarrow> n
                   | _ \<Rightarrow> ascii ''Image_'' @ str_nat (length imgs + 1)))"
proof -
  have strip_Nil: "strip [] = []" by (simp add: strip_def lstrip_def rstrip_def)
  show ?thesis
    using assms find_alt_text_blank [of s]
    by (cases "name s") (auto simp: image_entry_def Let_def ascii_def strip_Nil)
qed

lemma indent_of_replicate: "indent_of level = replicate (2 * level) SP"
  by (induction level) (simp_all add: indent_of_def)

lemma isspace_SP: "isspace SP"
  by (simp add: isspace_def SP_def)

lemma leading_ws_indent:
  "xs = [] \<or> \<not> isspace (hd xs) \<Longrightarrow> leading_ws (replicate n SP @ xs) = n"
proof -
  assume a: "xs = [] \<or> \<not> isspace (hd xs)"
  then have "takeWhile isspace xs = []" by (cases xs) auto
  moreover have "takeWhile isspace (replicate n SP @ xs) = replicate n SP @ takeWhile isspace xs"
    by (rule takeWhile_append2) (simp add: isspace_SP)
  ultimately show ?thesis by (simp add: leading_ws_def)
qed

lemma lstrip_head: "lstrip s \<noteq> [] \<Longrightarrow> \<not> isspace (hd (lstrip s))"
  unfolding lstrip_def by (rule hd_dropWhile)

lemma strip_head: "strip s \<noteq> [] \<Longrightarrow> \<not> isspace (hd (strip s))"
  unfolding strip_def by (rule lstrip_head)

lemma leading_ws_lstrip: "leading_ws (lstrip s) = 0"
  using leading_ws_indent [of "lstrip s" 0] lstrip_head [of s] by auto

lemma bullet_chars_not_space: "b \<in> set bullet_chars \<Longrightarrow> \<not> isspace b"
  by (auto simp: ev)

lemma default_bullet_head: "\<not> isspace (hd (default_bullet level))"
  by (simp add: default_bullet_cases ev)

lemma flat_bullet_head: "\<not> isspace (hd (flat_bullet level))" "flat_bullet level \<noteq> []"
  by (simp_all add: flat_bullet_def ev)

text \<open>
  The bullet of a rendered paragraph does not begin with whitespace, unless it is taken
  from a \<open>char\<close> attribute that is empty or begins with whitespace; without a bullet the
  text begins the line.
\<close>

lemma glyph_text_head:
  assumes "strip (p_text p) \<noteq> []"
    and "\<forall>c. attr_glyph p = Some c \<longrightarrow> c \<noteq> [] \<and> \<not> isspace (hd c)"
  shows "\<not> isspace (hd (fst (resolve_bullet ucd ps p) @ snd (resolve_bullet ucd ps p)))"
proof (cases "has_text_glyph p")
  case True
  then obtain b rest where b: "b \<in> set bullet_chars" "strip (p_text p) = b # rest"
    by (cases "strip (p_text p)") (auto simp: has_text_glyph_def startswith_single)
  show ?thesis
    using assms(2) bullet_chars_not_space [OF b(1)]
    by (auto simp: resolve_bullet_text_glyph [OF b(2) b(1)] split: option.splits)
next
  case False
  have b: "\<not> isspace BULLET" by (simp add: ev)
  show ?thesis
    using assms strip_head [of "p_text p"] default_bullet_head [of "p_level p"]
      default_bullet_nonempty [of "p_level p"]
      context_bullet_cases [of ucd ps p "strip (p_text p)"] b
    by (auto simp: resolve_bullet_no_text_glyph [OF False] Let_def hd_append
        split: option.splits)
qed

section \<open>The resolver\<close>

text \<open>
  C7. A paragraph at a level above 0 whose properties give no bullet character and
  whose text does not begin with a glyph is given the glyph of its level from the
  table: the second entry at level 1, the third at level 2, and "- " beyond the table.
  The text is the trimmed text of the paragraph.
\<close>

theorem indented_paragraph_gets_level_glyph:
  assumes "0 < p_level p" and "attr_glyph p = None" and "\<not> has_text_glyph p"
  shows "resolve_bullet ucd ps p = (default_bullet (p_level p), strip (p_text p)) \<and>
         default_bullet (p_level p) \<noteq> [] \<and>
         default_bullet (p_level p) =
           (if p_level p < length default_bullets then default_bullets ! p_level p
            else [HYPHEN, SP]) \<and>
         default_bullet (p_level p) \<in> {[WHITE_BULLET, SP], [SMALL_SQUARE, SP], [HYPHEN, SP]}"
proof -
  have "resolve_bullet ucd ps p = (default_bullet (p_level p), strip (p_text p))"
    using assms by (simp add: resolve_bullet_no_text_glyph default_bullet_nonempty)
  moreover have
    "default_bullet (p_level p) \<in> {[WHITE_BULLET, SP], [SMALL_SQUARE, SP], [HYPHEN, SP]}"
    using assms(1) by (simp add: default_bullet_cases)
  ultimately show ?thesis
    by (simp add: default_bullet_nonempty) (simp add: default_bullet_def)
qed

theorem indented_paragraph_gets_level_glyph_witness:
  "0 < p_level (para_plain 0 (ascii ''Second level'') 1) \<and>
   attr_glyph (para_plain 0 (ascii ''Second level'') 1) = None \<and>
   \<not> has_text_glyph (para_plain 0 (ascii ''Second level'') 1) \<and>
   resolve_bullet plain_tables [] (para_plain 0 (ascii ''Second level'') 1) =
     ([WHITE_BULLET, SP], ascii ''Second level'')"
proof -
  let ?p = "para_plain 0 (ascii ''Second level'') 1"
  have 1: "0 < p_level ?p" by (simp add: para_plain_def)
  have 2: "attr_glyph ?p = None" by (simp add: para_plain_def attr_glyph_def)
  have 3: "\<not> has_text_glyph ?p" by (simp add: has_text_glyph_def para_plain_def ev)
  have 4: "strip (p_text ?p) = ascii ''Second level''" by (simp add: para_plain_def ev)
  have 5: "default_bullet (p_level ?p) = [WHITE_BULLET, SP]"
    by (simp add: default_bullet_cases para_plain_def)
  show ?thesis
    using indented_paragraph_gets_level_glyph [OF 1 2 3, of plain_tables "[]"] 1 2 3 4 5
    by simp
qed

text \<open>
  C1 as amended. When the trimmed text begins with one of the five glyphs, the glyph is
  cut off the text and the rest is trimmed again; the bullet is the character given by
  the paragraph properties when there is one, and the glyph of the text followed by a
  space otherwise. Neither the level nor the context changes it.
\<close>

theorem text_glyph_is_bullet_unless_attribute:
  assumes "strip (p_text p) = b # rest" and "b \<in> set bullet_chars"
  shows "resolve_bullet ucd ps p =
     ((case attr_glyph p of Some c \<Rightarrow> c @ [SP] | None \<Rightarrow> [b, SP]), strip rest)"
  using assms by (rule resolve_bullet_text_glyph)

theorem text_glyph_is_bullet_unless_attribute_witness:
  "strip (p_text para_dash_level2) = HYPHEN # ascii '' item'' \<and>
   HYPHEN \<in> set bullet_chars \<and>
   resolve_bullet plain_tables [] para_dash_level2 = ([HYPHEN, SP], ascii ''item'')"
proof -
  have 1: "strip (p_text para_dash_level2) = HYPHEN # ascii '' item''"
    by (simp add: para_dash_level2_def para_plain_def ev)
  have 2: "HYPHEN \<in> set bullet_chars" by (simp add: bullet_chars_def)
  have 3: "attr_glyph para_dash_level2 = None"
    by (simp add: para_dash_level2_def para_plain_def attr_glyph_def)
  have 4: "strip (ascii '' item'') = ascii ''item''" by (simp add: ev)
  show ?thesis
    using text_glyph_is_bullet_unless_attribute [OF 1 2, of plain_tables "[]"] 1 2 3 4
    by simp
qed

text \<open>
  C1 as stated fails: the paragraph "- item" whose properties give the character ">"
  is rendered "> item"; the glyph of the text is cut off and replaced.
\<close>

theorem text_glyph_overridden_counterexample:
  "has_text_glyph para_attr_and_dash \<and>
   resolve_bullet plain_tables [para_attr_and_dash] para_attr_and_dash =
     (ascii ''> '', ascii ''item'') \<and>
   fst (resolve_bullet plain_tables [para_attr_and_dash] para_attr_and_dash) \<noteq> [HYPHEN, SP] \<and>
   formatted_line plain_tables [para_attr_and_dash] para_attr_and_dash = ascii ''> item''"
proof -
  have 1: "strip (p_text para_attr_and_dash) = HYPHEN # ascii '' item''"
    by (simp add: para_attr_and_dash_def ev)
  have 2: "HYPHEN \<in> set bullet_chars" by (simp add: bullet_chars_def)
  have 3: "attr_glyph para_attr_and_dash = Some (ascii ''>'')"
    by (simp add: para_attr_and_dash_def attr_glyph_def ppr_none_def)
  have 4: "strip (ascii '' item'') = ascii ''item''" by (simp add: ev)
  have 5: "resolve_bullet plain_tables [para_attr_and_dash] para_attr_and_dash =
      (ascii ''> '', ascii ''item'')"
    using resolve_bullet_text_glyph [OF 1 2, of plain_tables "[para_attr_and_dash]"] 3 4
    by (simp add: ascii_def SP_def)
  have 6: "has_text_glyph para_attr_and_dash"
    using 1 by (simp add: has_text_glyph_def startswith_single bullet_chars_def)
  have 7: "p_level para_attr_and_dash = 0" by (simp add: para_attr_and_dash_def)
  show ?thesis
    using 5 6 7 by (simp add: formatted_line_def indent_of_def) (simp add: ev)
qed

text \<open>
  C2 as amended. The no-bullet attribute has no effect on the resolver: the result for
  a paragraph is the result for the same paragraph without the attribute. So a paragraph
  that carries it and has no glyph in its text is given the character of its \<open>buChar\<close>
  child when there is one; else the glyph of its level when it has a bullet child or a
  run-level bullet, or when its level is above 0; else, at level 0, the round bullet
  when the header heuristic or the phrase list matches, and no glyph otherwise.
\<close>

theorem no_bullet_attribute_has_no_effect:
  "resolve_bullet ucd ps p = resolve_bullet ucd ps (without_buNone p) \<and>
   (explicit_no_bullet p \<and> \<not> has_text_glyph p \<longrightarrow>
      resolve_bullet ucd ps p =
        ((case attr_glyph p of
            Some c \<Rightarrow> c @ [SP]
          | None \<Rightarrow>
              if bullet_signal p \<or> 0 < p_level p then default_bullet (p_level p)
              else if (\<exists>i. py_index ps p = Some i \<and>
                          follows_header ucd (prev_texts ps i) (strip (p_text p))) \<or>
                      slide2_match ucd (strip (p_text p))
                   then [BULLET, SP] else []),
         strip (p_text p)))"
proof -
  have "resolve_bullet ucd ps p =
        ((case attr_glyph p of
            Some c \<Rightarrow> c @ [SP]
          | None \<Rightarrow>
              if bullet_signal p \<or> 0 < p_level p then default_bullet (p_level p)
              else if (\<exists>i. py_index ps p = Some i \<and>
                          follows_header ucd (prev_texts ps i) (strip (p_text p))) \<or>
                      slide2_match ucd (strip (p_text p))
                   then [BULLET, SP] else []),
         strip (p_text p))"
    if ng: "\<not> has_text_glyph p"
  proof (cases "attr_glyph p")
    case (Some c)
    then show ?thesis
      by (simp add: resolve_bullet_no_text_glyph [OF ng] Let_def)
  next
    case None
    show ?thesis
    proof (cases "bullet_signal p \<or> 0 < p_level p")
      case True
      then show ?thesis
        using None default_bullet_nonempty [of "p_level p"]
        by (auto simp: resolve_bullet_no_text_glyph [OF ng] Let_def)
    next
      case False
      then show ?thesis
        using None resolve_bullet_level0 [OF ng, of ucd ps]
          context_bullet_iff [of ucd ps p "strip (p_text p)"]
        by simp
    qed
  qed
  then show ?thesis
    by (simp add: resolve_bullet_without_buNone)
qed

theorem no_bullet_attribute_has_no_effect_witness:
  "explicit_no_bullet para_bunone \<and> \<not> has_text_glyph para_bunone \<and>
   attr_glyph para_bunone = None \<and> 0 < p_level para_bunone \<and>
   resolve_bullet plain_tables [para_bunone] para_bunone =
     ([WHITE_BULLET, SP], ascii ''Hello'') \<and>
   explicit_no_bullet para_bunone_font \<and> \<not> has_text_glyph para_bunone_font \<and>
   attr_glyph para_bunone_font = None \<and> bullet_signal para_bunone_font \<and>
   resolve_bullet plain_tables [para_bunone_font] para_bunone_font =
     ([BULLET, SP], ascii ''Hello'')"
proof -
  have 1: "explicit_no_bullet para_bunone" "explicit_no_bullet para_bunone_font"
    by (simp_all add: explicit_no_bullet_def para_bunone_def para_bunone_font_def ppr_none_def)
  have 2: "\<not> has_text_glyph para_bunone" "\<not> has_text_glyph para_bunone_font"
    by (simp_all add: has_text_glyph_def para_bunone_def para_bunone_font_def ev)
  have 3: "attr_glyph para_bunone = None" "attr_glyph para_bunone_font = None"
    by (simp_all add: attr_glyph_def para_bunone_def para_bunone_font_def ppr_none_def)
  have 4: "0 < p_level para_bunone" "bullet_signal para_bunone_font"
    by (simp_all add: para_bunone_def bullet_signal_def para_bunone_font_def ppr_none_def)
  have 5: "strip (p_text para_bunone) = ascii ''Hello''"
      "strip (p_text para_bunone_font) = ascii ''Hello''"
    by (simp_all add: para_bunone_def para_bunone_font_def ev)
  have 6: "default_bullet (p_level para_bunone) = [WHITE_BULLET, SP]"
      "default_bullet (p_level para_bunone_font) = [BULLET, SP]"
    by (simp_all add: default_bullet_cases para_bunone_def para_bunone_font_def)
  have a: "resolve_bullet plain_tables [para_bunone] para_bunone =
      ([WHITE_BULLET, SP], ascii ''Hello'')"
    using conjunct2 [OF no_bullet_attribute_has_no_effect
        [of plain_tables "[para_bunone]" para_bunone]] 1(1) 2(1) 3(1) 4(1) 5(1) 6(1)
    by simp
  have b: "resolve_bullet plain_tables [para_bunone_font] para_bunone_font =
      ([BULLET, SP], ascii ''Hello'')"
    using conjunct2 [OF no_bullet_attribute_has_no_effect
        [of plain_tables "[para_bunone_font]" para_bunone_font]]
      1(2) 2(2) 3(2) 4(2) 5(2) 6(2)
    by simp
  show ?thesis
    using 1 2 3 4 a b by simp
qed

text \<open>
  C2 as stated fails: the paragraph "Hello" at level 1 with the no-bullet attribute is
  rendered with the glyph of level 1.
\<close>

theorem no_bullet_attribute_counterexample:
  "explicit_no_bullet para_bunone \<and> \<not> has_text_glyph para_bunone \<and>
   fst (resolve_bullet plain_tables [para_bunone] para_bunone) \<noteq> [] \<and>
   formatted_line plain_tables [para_bunone] para_bunone =
     [SP, SP, WHITE_BULLET, SP] @ ascii ''Hello''"
proof -
  have 1: "explicit_no_bullet para_bunone"
    by (simp add: explicit_no_bullet_def para_bunone_def ppr_none_def)
  have 3: "\<not> has_text_glyph para_bunone"
    by (simp add: has_text_glyph_def para_bunone_def ev)
  have ag: "attr_glyph para_bunone = None"
    by (simp add: attr_glyph_def para_bunone_def ppr_none_def)
  have 4: "p_level para_bunone = 1" by (simp add: para_bunone_def)
  have 5: "strip (p_text para_bunone) = ascii ''Hello''" by (simp add: para_bunone_def ev)
  have 6: "resolve_bullet plain_tables [para_bunone] para_bunone =
      ([WHITE_BULLET, SP], ascii ''Hello'')"
    by (simp add: resolve_bullet_no_text_glyph [OF 3] ag 4 5 default_bullet_cases)
  show ?thesis
    using 1 3 6 4 by (simp add: formatted_line_def indent_of_def)
qed

text \<open>
  C3 as amended. A paragraph at level 0 without a bullet signal and without a glyph in
  its text is given the round bullet exactly when the lower-case form of its text
  contains one of the fixed phrases, or when the paragraph object is found in the list
  read again from the shape, an earlier non-empty paragraph exists there, the last of
  them has at most 3 words and does not end in a colon, and the text has more than 2
  words and its lower-case form contains one of the keywords. Otherwise it has no glyph.
  When the object is not found in the list read again, as with the objects the library
  builds at each read, the phrases alone decide.
\<close>

theorem level0_bullet_by_keywords:
  assumes "p_level p = 0" and "\<not> bullet_signal p" and "\<not> has_text_glyph p"
  shows "resolve_bullet ucd ps p =
     ((if (\<exists>i. py_index ps p = Some i \<and> prev_texts ps i \<noteq> [] \<and>
               length (split (last (prev_texts ps i))) \<le> 3 \<and>
               \<not> endswith_colon (last (prev_texts ps i)) \<and>
               length (split (strip (p_text p))) > 2 \<and>
               (\<exists>keyword \<in> set context_keywords.
                   py_in keyword (lower ucd (strip (p_text p))))) \<or>
           (\<exists>pattern \<in> set slide2_patterns. py_in pattern (lower ucd (strip (p_text p))))
       then [BULLET, SP] else []),
      strip (p_text p)) \<and>
     (py_index ps p = None \<longrightarrow>
        resolve_bullet ucd ps p =
          ((if \<exists>pattern \<in> set slide2_patterns.
                 py_in pattern (lower ucd (strip (p_text p)))
            then [BULLET, SP] else []),
           strip (p_text p)))"
  using assms resolve_bullet_level0 [of p ucd ps]
    context_bullet_iff [of ucd ps p "strip (p_text p)"]
  by (simp add: follows_header_def slide2_match_def)

theorem level0_bullet_by_keywords_witness:
  "p_level para_teams = 0 \<and> \<not> bullet_signal para_teams \<and> \<not> has_text_glyph para_teams \<and>
   py_index (paragraphs_again (library_frame [para_teams])) para_teams = None \<and>
   resolve_bullet plain_tables (paragraphs_again (library_frame [para_teams])) para_teams =
     ([BULLET, SP], ascii ''Teams operate daily'')"
proof -
  have "\<exists>pattern \<in> set slide2_patterns.
      py_in pattern (lower plain_tables (strip (p_text para_teams)))"
    using pattern_teams [of plain_tables] by (simp add: slide2_match_def example_strip)
  then show ?thesis
    using level0_bullet_by_keywords [OF example_level0(3) example_no_signal(3)
        example_no_glyph(3), of plain_tables "paragraphs_again (library_frame [para_teams])"]
      example_level0(3) example_no_signal(3) example_no_glyph(3) index_teams_library
    by (simp add: example_strip)
qed

text \<open>
  C3 as stated fails, both ways. After the one-word line "Header" the line "Run the tool
  now" meets the structural condition (a short line before, no colon, more than 2 words)
  and is rendered without a glyph, with the paragraph objects of the library and with
  those of a fixed list. The line "Teams operate daily" has no line before it and is
  rendered with the bullet, for the phrase it contains.
\<close>

theorem structural_condition_counterexample:
  "p_level para_run = 0 \<and> \<not> bullet_signal para_run \<and> \<not> has_text_glyph para_run \<and>
   spec_continuation [ascii ''Header''] (strip (p_text para_run)) \<and>
   structured_lines plain_tables (library_frame [para_header, para_run]) =
     [ascii ''Header'', ascii ''Run the tool now''] \<and>
   structured_lines plain_tables (fixed_frame [para_header, para_run]) =
     [ascii ''Header'', ascii ''Run the tool now''] \<and>
   p_level para_teams = 0 \<and> \<not> bullet_signal para_teams \<and> \<not> has_text_glyph para_teams \<and>
   \<not> spec_continuation [] (strip (p_text para_teams)) \<and>
   structured_lines plain_tables (library_frame [para_teams]) =
     [[BULLET, SP] @ ascii ''Teams operate daily'']"
proof -
  have sc: "spec_continuation [ascii ''Header''] (ascii ''Run the tool now'')"
    by (simp add: spec_continuation_def ev)
  have nsc: "\<not> spec_continuation [] (ascii ''Teams operate daily'')"
    by (simp add: spec_continuation_def)
  have s1: "structured_lines plain_tables (library_frame [para_header, para_run]) =
      [ascii ''Header'', ascii ''Run the tool now'']"
    by (simp add: structured_lines_def library_frame_def example_strip example_lines)
      (simp add: ascii_def)
  have s2: "structured_lines plain_tables (fixed_frame [para_header, para_run]) =
      [ascii ''Header'', ascii ''Run the tool now'']"
    by (simp add: structured_lines_def fixed_frame_def example_strip example_lines)
      (simp add: ascii_def)
  have s3: "structured_lines plain_tables (library_frame [para_teams]) =
      [[BULLET, SP] @ ascii ''Teams operate daily'']"
    by (simp add: structured_lines_def library_frame_def example_strip example_lines)
      (simp add: ascii_def)
  show ?thesis
    using example_level0(2,3) example_no_signal(2,3) example_no_glyph(2,3) sc nsc s1 s2 s3
    by (simp add: example_strip)
qed

section \<open>Properties of flat text shapes\<close>

text \<open>
  C4, at the flat-text shape of scenario C. The loop over the raw lines collects
  "- Item one" and a synthesized bullet line for "Item two"; then the read of the
  paragraphs of the missing text frame raises AttributeError, the lines are lost, and the
  slide records a warning and no content.
\<close>

theorem flat_text_shape_yields_no_content:
  "flat_lines plain_tables flat_text =
     [ascii ''- Item one'', [BULLET, SP] @ ascii ''Item two''] \<and>
   extract_text_from_shape plain_tables flat_shape = Inl AttributeError \<and>
   extract_slide_text plain_tables \<lparr>shapes = [flat_shape], notes_text = None\<rparr> =
     (\<lparr>title = [], content = [], sc_notes = [], images = []\<rparr>, [AttributeError])"
  by (simp add: flat_lines_example flat_shape_raises extract_slide_text_def content_step_def
      flat_shape_fails flat_shape_no_title)
    (simp add: title_step_def flat_shape_def shape_plain_def)

section \<open>Properties of the slide\<close>

text \<open>
  C5, at a slide with two title placeholders "First" and "Second". The title loop does
  not stop at the first match, so the second placeholder overwrites the title: the
  recorded title is "Second". Both placeholders are left out of the content.
\<close>

theorem second_title_overwrites_first:
  "extract_slide_text plain_tables two_titles =
     (\<lparr>title = ascii ''Second'', content = [], sc_notes = [], images = []\<rparr>, [])"
proof -
  have "strip (ascii ''First'') = ascii ''First''" "strip (ascii ''Second'') = ascii ''Second''"
    by (simp_all add: ev)
  then show ?thesis
    by (simp add: extract_slide_text_def two_titles_def title_step_title_shape
        content_step_title title_shape_is_title)
      (simp add: ascii_def)
qed

text \<open>
  C8. When the work on a shape raises an exception, the exception is caught at the
  shape: the record of the slide is the record of the slide without that shape, so the
  lines and images of all other shapes are there, and the warnings printed are those of
  the slide without the shape with one more, for this exception, in its place. The
  function returns a record in every case.
\<close>

theorem shape_failure_is_isolated:
  assumes "\<not> is_title_placeholder s" and "process_shape ucd s st0 = Inl e"
  shows "fst (extract_slide_text ucd \<lparr>shapes = xs @ s # ys, notes_text = n\<rparr>) =
           fst (extract_slide_text ucd \<lparr>shapes = xs @ ys, notes_text = n\<rparr>) \<and>
         snd (extract_slide_text ucd \<lparr>shapes = xs @ s # ys, notes_text = n\<rparr>) =
           take (length (snd (extract_slide_text ucd \<lparr>shapes = xs, notes_text = n\<rparr>)))
             (snd (extract_slide_text ucd \<lparr>shapes = xs @ ys, notes_text = n\<rparr>)) @ [e] @
           drop (length (snd (extract_slide_text ucd \<lparr>shapes = xs, notes_text = n\<rparr>)))
             (snd (extract_slide_text ucd \<lparr>shapes = xs @ ys, notes_text = n\<rparr>))"
proof -
  obtain st w where xs: "foldl (content_step ucd) (([], []), []) xs = (st, w)"
    by (cases "foldl (content_step ucd) (([], []), []) xs")
  have step: "content_step ucd (st, w) s = (st, w @ [e])"
    using assms by (rule content_step_error)
  have with_s: "foldl (content_step ucd) (([], []), []) (xs @ s # ys) =
      (fst (foldl (content_step ucd) (st, []) ys),
       (w @ [e]) @ snd (foldl (content_step ucd) (st, []) ys))"
    using content_loop_warnings [of ucd st "w @ [e]" ys] by (simp add: xs step)
  have without: "foldl (content_step ucd) (([], []), []) (xs @ ys) =
      (fst (foldl (content_step ucd) (st, []) ys),
       w @ snd (foldl (content_step ucd) (st, []) ys))"
    using content_loop_warnings [of ucd st w ys] by (simp add: xs)
  have t: "foldl title_step [] (xs @ s # ys) = foldl title_step [] (xs @ ys)"
    using assms(1) by (simp add: title_step_not_title)
  show ?thesis
    unfolding extract_slide_text_def Let_def slide.select_convs with_s without t xs
    by simp
qed

theorem shape_failure_is_isolated_witness:
  "\<not> is_title_placeholder flat_shape \<and>
   process_shape plain_tables flat_shape ([], []) = Inl AttributeError \<and>
   extract_slide_text plain_tables
     \<lparr>shapes = [header_shape] @ flat_shape # [picture3], notes_text = None\<rparr> =
     (\<lparr>title = [], content = [ascii ''Header''], sc_notes = [],
       images = [ascii ''[No alt-text] Picture 3'']\<rparr>, [AttributeError])"
proof -
  have nt: "\<not> is_title_placeholder header_shape" "\<not> is_title_placeholder picture3"
    by (simp_all add: is_title_placeholder_def header_shape_def picture3_def shape_plain_def)
  have h: "process_shape plain_tables header_shape (c, i) = Inr (c @ [ascii ''Header''], i)"
    for c i
    by (simp add: process_shape_def header_shape_def shape_plain_def extract_text_from_shape_def
        structured_lines_def library_frame_def example_strip example_lines)
      (simp add: ascii_def)
  have "find_alt_text picture3 = []"
    by (simp add: find_alt_text_def picture3_def shape_plain_def generic_name_def ev)
  then have "image_entry picture3 i = Inr (ascii ''[No alt-text] Picture 3'')" for i
    by (simp add: image_entry_def) (simp add: picture3_def shape_plain_def ascii_def)
  then have p: "process_shape plain_tables picture3 (c, i) =
      Inr (c, i @ [ascii ''[No alt-text] Picture 3''])" for c i
    by (simp add: process_shape_def) (simp add: picture3_def shape_plain_def)
  have without: "extract_slide_text plain_tables
       \<lparr>shapes = [header_shape] @ [picture3], notes_text = None\<rparr> =
     (\<lparr>title = [], content = [ascii ''Header''], sc_notes = [],
       images = [ascii ''[No alt-text] Picture 3'']\<rparr>, [])"
    by (simp add: extract_slide_text_def content_step_def nt h p title_step_not_title)
  have one: "extract_slide_text plain_tables \<lparr>shapes = [header_shape], notes_text = None\<rparr> =
     (\<lparr>title = [], content = [ascii ''Header''], sc_notes = [], images = []\<rparr>, [])"
    by (simp add: extract_slide_text_def content_step_def nt h title_step_not_title)
  show ?thesis
    using shape_failure_is_isolated [OF flat_shape_no_title
        flat_shape_fails [of plain_tables "([], [])"],
        where xs = "[header_shape]" and ys = "[picture3]" and n = None]
      flat_shape_no_title flat_shape_fails [of plain_tables "([], [])"] without one
    by (simp add: prod_eq_iff)
qed

text \<open>
  C10. A shape with placeholder index 0 is left out of the content loop whatever its
  text: the content, the images and the warnings of the slide are those of the slide
  without it. When its text is absent or blank it sets no title either, and the whole
  record is that of the slide without it.
\<close>

theorem title_placeholder_contributes_nothing:
  assumes "placeholder_format s = PhIdx 0"
  shows "content (fst (extract_slide_text ucd \<lparr>shapes = xs @ s # ys, notes_text = n\<rparr>)) =
           content (fst (extract_slide_text ucd \<lparr>shapes = xs @ ys, notes_text = n\<rparr>)) \<and>
         images (fst (extract_slide_text ucd \<lparr>shapes = xs @ s # ys, notes_text = n\<rparr>)) =
           images (fst (extract_slide_text ucd \<lparr>shapes = xs @ ys, notes_text = n\<rparr>)) \<and>
         snd (extract_slide_text ucd \<lparr>shapes = xs @ s # ys, notes_text = n\<rparr>) =
           snd (extract_slide_text ucd \<lparr>shapes = xs @ ys, notes_text = n\<rparr>) \<and>
         (blank (s_text s) \<longrightarrow>
            extract_slide_text ucd \<lparr>shapes = xs @ s # ys, notes_text = n\<rparr> =
            extract_slide_text ucd \<lparr>shapes = xs @ ys, notes_text = n\<rparr>)"
proof -
  from assms have "is_title_placeholder s" by (simp add: is_title_placeholder_def)
  then have c: "foldl (content_step ucd) acc (xs @ s # ys) =
      foldl (content_step ucd) acc (xs @ ys)" for acc
    by (simp add: content_step_title)
  have t: "foldl title_step [] (xs @ s # ys) = foldl title_step [] (xs @ ys)"
    if "blank (s_text s)"
    using that by (simp add: title_step_blank blank_def)
  show ?thesis
    unfolding extract_slide_text_def Let_def slide.select_convs c
    using t by simp
qed

theorem title_placeholder_contributes_nothing_witness:
  "placeholder_format blank_title_shape = PhIdx 0 \<and> blank (s_text blank_title_shape) \<and>
   extract_slide_text plain_tables
     \<lparr>shapes = [header_shape] @ blank_title_shape # [picture3], notes_text = None\<rparr> =
   extract_slide_text plain_tables
     \<lparr>shapes = [header_shape] @ [picture3], notes_text = None\<rparr>"
proof -
  have 1: "placeholder_format blank_title_shape = PhIdx 0"
    by (simp add: blank_title_shape_def title_shape_def shape_plain_def)
  have 2: "blank (s_text blank_title_shape)"
    by (simp add: blank_def blank_title_shape_def title_shape_def shape_plain_def ev)
  show ?thesis
    using title_placeholder_contributes_nothing [OF 1, where xs = "[header_shape]" and
        ys = "[picture3]" and n = None and ucd = plain_tables]
      1 2 by simp
qed

section \<open>Properties of the image descriptions\<close>

text \<open>
  C9, at a picture without any description whose name cannot be read. The four methods
  find nothing (the failing read of the name in method 4 is swallowed); the fallback
  then reads the name again, outside the \<open>try\<close> of the methods, and the exception leaves
  the work on the shape: the picture gets no entry in the image list, not even the
  sentinel, and the slide records a warning.
\<close>

theorem picture_without_readable_name_gets_no_entry:
  "shape_type picture_name_raises = PICTURE \<and>
   find_alt_text picture_name_raises = [] \<and>
   image_entry picture_name_raises [] = Inl ReadError \<and>
   process_shape plain_tables picture_name_raises ([], []) = Inl ReadError \<and>
   extract_slide_text plain_tables \<lparr>shapes = [picture_name_raises], notes_text = None\<rparr> =
     (\<lparr>title = [], content = [], sc_notes = [], images = []\<rparr>, [ReadError])"
proof -
  have 1: "shape_type picture_name_raises = PICTURE"
    by (simp add: picture_name_raises_def shape_plain_def)
  have 3: "find_alt_text picture_name_raises = []"
    by (simp add: find_alt_text_def picture_name_raises_def shape_plain_def)
  have 4: "image_entry picture_name_raises i = Inl ReadError" for i
    by (simp add: image_entry_def 3) (simp add: picture_name_raises_def shape_plain_def)
  have 5: "process_shape plain_tables picture_name_raises (c, i) = Inl ReadError" for c i
    by (simp add: process_shape_def 1 4)
  have 6: "\<not> is_title_placeholder picture_name_raises"
    by (simp add: is_title_placeholder_def picture_name_raises_def shape_plain_def)
  have 7: "extract_slide_text plain_tables
       \<lparr>shapes = [picture_name_raises], notes_text = None\<rparr> =
     (\<lparr>title = [], content = [], sc_notes = [], images = []\<rparr>, [ReadError])"
    by (simp add: extract_slide_text_def content_step_def 5 6 title_step_not_title)
  show ?thesis using 1 3 4 5 7 by simp
qed

section \<open>Indentation of the rendered lines\<close>

text \<open>
  C6 as amended. A line rendered for a paragraph is two spaces per level, then the bullet,
  then the text; its run of leading whitespace has exactly twice the level as length,
  provided that a \<open>char\<close> attribute of the paragraph, if there is one, is not empty and
  does not begin with whitespace. In the loop over the lines of a flat text, a line that
  is not blank adds one line to the output: when it does not begin with a glyph and is
  judged a list item, two spaces per estimated level, the bullet of that level and the
  trimmed line; in every other case the trimmed line alone, without indentation.
\<close>

theorem rendered_line_indentation:
  "(strip (p_text p) \<noteq> [] \<longrightarrow>
      formatted_line ucd ps p =
        replicate (2 * p_level p) SP @ fst (resolve_bullet ucd ps p) @
          snd (resolve_bullet ucd ps p) \<and>
      ((\<forall>c. attr_glyph p = Some c \<longrightarrow> c \<noteq> [] \<and> \<not> isspace (hd c)) \<longrightarrow>
         leading_ws (formatted_line ucd ps p) = 2 * p_level p)) \<and>
   (strip (rstrip raw) \<noteq> [] \<longrightarrow>
      (\<exists>l. flat_step ucd text_content raw = text_content @ [l] \<and>
           (if \<not> (\<exists>b \<in> set bullet_chars. startswith (lstrip (rstrip raw)) [b]) \<and>
               should_be_bullet ucd (filter (\<lambda>l. strip l \<noteq> []) text_content)
                 (lstrip (rstrip raw))
            then l = replicate (2 * estimated_level raw) SP @
                       flat_bullet (estimated_level raw) @ lstrip (rstrip raw) \<and>
                 leading_ws l = 2 * estimated_level raw
            else l = lstrip (rstrip raw) \<and> leading_ws l = 0)))"
proof -
  have form: "formatted_line ucd ps p =
      replicate (2 * p_level p) SP @ fst (resolve_bullet ucd ps p) @
        snd (resolve_bullet ucd ps p)"
    by (cases "resolve_bullet ucd ps p") (simp add: formatted_line_def indent_of_replicate)
  have ws: "leading_ws (formatted_line ucd ps p) = 2 * p_level p"
    if "strip (p_text p) \<noteq> []"
      and "\<forall>c. attr_glyph p = Some c \<longrightarrow> c \<noteq> [] \<and> \<not> isspace (hd c)"
    unfolding form using glyph_text_head [OF that, of ucd ps]
    by (intro leading_ws_indent) simp
  have synth: "leading_ws (replicate (2 * n) SP @ flat_bullet n @ x) = 2 * n" for n x
    using flat_bullet_head [of n] by (intro leading_ws_indent) (simp add: hd_append)
  have flat: "\<exists>l. flat_step ucd text_content raw = text_content @ [l] \<and>
           (if \<not> (\<exists>b \<in> set bullet_chars. startswith (lstrip (rstrip raw)) [b]) \<and>
               should_be_bullet ucd (filter (\<lambda>l. strip l \<noteq> []) text_content)
                 (lstrip (rstrip raw))
            then l = replicate (2 * estimated_level raw) SP @
                       flat_bullet (estimated_level raw) @ lstrip (rstrip raw) \<and>
                 leading_ws l = 2 * estimated_level raw
            else l = lstrip (rstrip raw) \<and> leading_ws l = 0)"
    if "strip (rstrip raw) \<noteq> []"
    using that synth [of "estimated_level raw" "lstrip (rstrip raw)"]
      leading_ws_lstrip [of "rstrip raw"]
    by (simp add: flat_step_def Let_def indent_of_replicate)
  show ?thesis
    using form ws flat by blast
qed

theorem rendered_line_indentation_witness:
  "strip (p_text para_dash_level2) \<noteq> [] \<and>
   attr_glyph para_dash_level2 = None \<and>
   leading_ws (formatted_line plain_tables [] para_dash_level2) = 4 \<and>
   strip (rstrip (ascii ''  Item two'')) \<noteq> [] \<and>
   flat_step plain_tables [ascii ''- Item one''] (ascii ''  Item two'') =
     [ascii ''- Item one'', [SP, SP, WHITE_BULLET, SP] @ ascii ''Item two'']"
proof -
  have 1: "strip (p_text para_dash_level2) \<noteq> []"
    by (simp add: para_dash_level2_def para_plain_def ev)
  have 0: "attr_glyph para_dash_level2 = None"
    by (simp add: para_dash_level2_def para_plain_def attr_glyph_def)
  then have 2: "\<forall>c. attr_glyph para_dash_level2 = Some c \<longrightarrow> c \<noteq> [] \<and> \<not> isspace (hd c)"
    by simp
  have 3: "p_level para_dash_level2 = 2" by (simp add: para_dash_level2_def para_plain_def)
  have 4: "strip (rstrip (ascii ''  Item two'')) \<noteq> []" by (simp add: ev)
  have 5: "lstrip (rstrip (ascii ''  Item two'')) = ascii ''Item two''" by (simp add: ev)
  have 6: "estimated_level (ascii ''  Item two'') = 1" by (simp add: estimated_level_def ev)
  have 7: "should_be_bullet plain_tables (filter (\<lambda>l. strip l \<noteq> []) [ascii ''- Item one''])
      (lstrip (rstrip (ascii ''  Item two'')))"
    unfolding 5 by (simp add: should_be_bullet_def ev)
  have 8: "\<not> (\<exists>b \<in> set bullet_chars. startswith (lstrip (rstrip (ascii ''  Item two''))) [b])"
    unfolding 5 by (simp add: ev)
  have 9: "flat_bullet (Suc 0) = [WHITE_BULLET, SP]" by (simp add: flat_bullet_def)
  note inst = rendered_line_indentation [of para_dash_level2 plain_tables "[]"
      "ascii ''  Item two''" "[ascii ''- Item one'']"]
  from inst 1 2 have "leading_ws (formatted_line plain_tables [] para_dash_level2) =
      2 * p_level para_dash_level2"
    by blast
  then have a: "leading_ws (formatted_line plain_tables [] para_dash_level2) = 4"
    by (simp add: 3)
  from inst 4 obtain l where l:
    "flat_step plain_tables [ascii ''- Item one''] (ascii ''  Item two'') =
      [ascii ''- Item one''] @ [l]"
    "(if \<not> (\<exists>b \<in> set bullet_chars. startswith (lstrip (rstrip (ascii ''  Item two''))) [b]) \<and>
         should_be_bullet plain_tables (filter (\<lambda>l. strip l \<noteq> []) [ascii ''- Item one''])
           (lstrip (rstrip (ascii ''  Item two'')))
      then l = replicate (2 * estimated_level (ascii ''  Item two'')) SP @
                 flat_bullet (estimated_level (ascii ''  Item two'')) @
                 lstrip (rstrip (ascii ''  Item two'')) \<and>
           leading_ws l = 2 * estimated_level (ascii ''  Item two'')
      else l = lstrip (rstrip (ascii ''  Item two'')) \<and> leading_ws l = 0)"
    by blast
  from l(2) 7 8 have "l = replicate (2 * estimated_level (ascii ''  Item two'')) SP @
      flat_bullet (estimated_level (ascii ''  Item two'')) @
      lstrip (rstrip (ascii ''  Item two''))"
    by simp
  then have "l = [SP, SP, WHITE_BULLET, SP] @ ascii ''Item two''"
    by (simp add: 5 6 9 numeral_2_eq_2)
  with l(1) have b: "flat_step plain_tables [ascii ''- Item one''] (ascii ''  Item two'') =
     [ascii ''- Item one'', [SP, SP, WHITE_BULLET, SP] @ ascii ''Item two'']"
    by simp
  show ?thesis using 1 0 a 4 b by blast
qed

text \<open>
  C6 as stated fails. In the flat loop the line "  - Item one" has estimated level 1 and
  is added as "- Item one", without indentation. For a paragraph at level 0 whose
  \<open>buChar\<close> child has an empty \<open>char\<close>, the bullet is a single space and the line
  " Hello" begins with one whitespace character.
\<close>

theorem indentation_counterexample:
  "estimated_level (ascii ''  - Item one'') = 1 \<and>
   flat_step plain_tables [] (ascii ''  - Item one'') = [ascii ''- Item one''] \<and>
   leading_ws (ascii ''- Item one'') = 0 \<and>
   p_level para_empty_char = 0 \<and>
   formatted_line plain_tables [para_empty_char] para_empty_char = ascii '' Hello'' \<and>
   leading_ws (formatted_line plain_tables [para_empty_char] para_empty_char) = 1"
proof -
  have 1: "estimated_level (ascii ''  - Item one'') = 1" by (simp add: estimated_level_def ev)
  have 2: "flat_step plain_tables [] (ascii ''  - Item one'') = [ascii ''- Item one'']"
    by (simp add: flat_step_def Let_def ev)
  have 3: "leading_ws (ascii ''- Item one'') = 0" by (simp add: leading_ws_def ev)
  have 4: "p_level para_empty_char = 0" by (simp add: para_empty_char_def)
  have ng: "\<not> has_text_glyph para_empty_char"
    by (simp add: has_text_glyph_def para_empty_char_def ev)
  have ag: "attr_glyph para_empty_char = Some []"
    by (simp add: attr_glyph_def para_empty_char_def ppr_none_def)
  have st: "strip (p_text para_empty_char) = ascii ''Hello''"
    by (simp add: para_empty_char_def ev)
  have "resolve_bullet plain_tables [para_empty_char] para_empty_char =
      ([SP], ascii ''Hello'')"
    by (simp add: resolve_bullet_no_text_glyph [OF ng] ag 4 st)
  then have 5: "formatted_line plain_tables [para_empty_char] para_empty_char =
      ascii '' Hello''"
    by (simp add: formatted_line_def 4 indent_of_def) (simp add: ev)
  have 6: "leading_ws (ascii '' Hello'') = 1" by (simp add: leading_ws_def ev)
  show ?thesis using 1 2 3 4 5 6 by simp
qed

end
